theory Spec2Isabelle
  imports Main
begin

section \<open>The URL search parameters\<close>

text \<open>
  The hook of \<^verbatim>\<open>src/hooks/useStateWithSearchParam.tsx\<close> reads and writes a
  \<^verbatim>\<open>URLSearchParams\<close> object, which it gets from the router. The object is an ordered list
  of name/value pairs in which a name may occur several times. The three methods the hook
  calls are modelled as the URL standard defines them: \<^verbatim>\<open>get\<close> returns the value of the
  first pair with the name, or \<^verbatim>\<open>null\<close> (here \<open>None\<close>); \<^verbatim>\<open>delete\<close> drops every pair
  with the name; \<^verbatim>\<open>set\<close> overwrites the first pair with the name and drops the later ones,
  or appends a pair when there is none.
\<close>

type_synonym URLSearchParams = "(string \<times> string) list"

fun searchParams_get :: "URLSearchParams \<Rightarrow> string \<Rightarrow> string option" where
  "searchParams_get [] name = None"
| "searchParams_get ((k, v) # ps) name =
     (if k = name then Some v else searchParams_get ps name)"

fun searchParams_delete :: "URLSearchParams \<Rightarrow> string \<Rightarrow> URLSearchParams" where
  "searchParams_delete [] name = []"
| "searchParams_delete ((k, v) # ps) name =
     (if k = name then searchParams_delete ps name else (k, v) # searchParams_delete ps name)"

fun searchParams_set :: "URLSearchParams \<Rightarrow> string \<Rightarrow> string \<Rightarrow> URLSearchParams" where
  "searchParams_set [] name s = [(name, s)]"
| "searchParams_set ((k, v) # ps) name s =
     (if k = name then (name, s) # searchParams_delete ps name
      else (k, v) # searchParams_set ps name s)"

text \<open>
  \<^verbatim>\<open>getAll\<close>, every value stored under a name in the order of the list, is not called by
  the hook; it is what another reader of the URL can see of a name.
\<close>

definition searchParams_getAll :: "URLSearchParams \<Rightarrow> string \<Rightarrow> string list" where
  "searchParams_getAll ps name = map snd (filter (\<lambda>p. fst p = name) ps)"

section \<open>The hook\<close>

text \<open>
  The argument of the hook. \<^verbatim>\<open>fromParam\<close> and \<^verbatim>\<open>toParam\<close> are the caller's functions; a
  JavaScript function may throw, so each returns either the exception (\<open>Inl\<close>) or its
  result (\<open>Inr\<close>). \<^verbatim>\<open>string | null\<close> and \<^verbatim>\<open>string | undefined\<close> are \<open>string option\<close>.
\<close>

record ('e, 'a) args =
  searchParamName :: string
  fromParam :: "string option \<Rightarrow> 'e + 'a"
  toParam :: "'a \<Rightarrow> 'e + string option"

text \<open>
  What the caller passes to the setter, \<^verbatim>\<open>((v: T) => T) | T\<close>. The source tells the two
  apart with \<^verbatim>\<open>typeof value === "function"\<close>, so \<open>'a\<close> stands for a type of values that
  are not functions.
\<close>

datatype ('e, 'a) SetStateAction = Value 'a | Updater "'a \<Rightarrow> 'e + 'a"

text \<open>
  What one mounted hook can see and change: the state cell \<^verbatim>\<open>_state\<close>, the
  \<^verbatim>\<open>searchParams\<close> object, and the calls of \<^verbatim>\<open>setSearchParams\<close> made so far, each with
  the parameters it asked the router to navigate to (oldest first). The object is the one
  that \<^verbatim>\<open>useSearchParams\<close> returned to the render in which the setter was created (lines 22
  and 44); \<^verbatim>\<open>set\<close> and \<^verbatim>\<open>delete\<close> change it in place. It is not the URL: the URL changes
  when \<^verbatim>\<open>setSearchParams\<close> is called, by the hook or by anyone else.
\<close>

record 'a hook =
  state :: 'a
  searchParams :: URLSearchParams
  setSearchParams_calls :: "URLSearchParams list"

text \<open>
  Line 25: the state cell is created from \<^verbatim>\<open>args.fromParam(searchParams.get(args.searchParamName))\<close>.
  When \<^verbatim>\<open>fromParam\<close> throws, the render throws and there is no hook.
\<close>

definition mount :: "('e, 'a) args \<Rightarrow> URLSearchParams \<Rightarrow> 'e + 'a hook" where
  "mount args sp =
     (case fromParam args (searchParams_get sp (searchParamName args)) of
        Inl e \<Rightarrow> Inl e
      | Inr v \<Rightarrow> Inr \<lparr>state = v, searchParams = sp, setSearchParams_calls = []\<rparr>)"

text \<open>
  Line 31: \<^verbatim>\<open>typeof value === "function" ? value(prevState) : value\<close>. The function of the
  caller may throw.
\<close>

definition nextValue :: "('e, 'a) SetStateAction \<Rightarrow> 'a \<Rightarrow> 'e + 'a" where
  "nextValue action prevState = (case action of Updater f \<Rightarrow> f prevState | Value v \<Rightarrow> Inr v)"

text \<open>
  Lines 30 to 42: the function that \<^verbatim>\<open>setState\<close> hands to \<^verbatim>\<open>_setState\<close>, run on the
  previous state. The statements are kept in the order of the source, and an exception
  leaves the hook as it is at the statement that throws. \<^verbatim>\<open>if (newParamValue)\<close> tests the
  JavaScript truth value of a \<^verbatim>\<open>string | undefined\<close>: \<^verbatim>\<open>undefined\<close> and the empty string
  are false, every other string is true.
\<close>

definition updater ::
  "('e, 'a) args \<Rightarrow> ('e, 'a) SetStateAction \<Rightarrow> 'a \<Rightarrow> 'a hook \<Rightarrow> ('e + 'a) \<times> 'a hook" where
  "updater args action prevState h =
     (case nextValue action prevState of
        Inl e \<Rightarrow> (Inl e, h)
      | Inr newValue \<Rightarrow>
          (case toParam args newValue of
             Inl e \<Rightarrow> (Inl e, h)
           | Inr newParamValue \<Rightarrow>
               (let h1 =
                      (case newParamValue of
                         Some s \<Rightarrow>
                           if s \<noteq> []
                           then h\<lparr>searchParams := searchParams_set (searchParams h) (searchParamName args) s\<rparr>
                           else h\<lparr>searchParams := searchParams_delete (searchParams h) (searchParamName args)\<rparr>
                       | None \<Rightarrow>
                           h\<lparr>searchParams := searchParams_delete (searchParams h) (searchParamName args)\<rparr>);
                    h2 = h1\<lparr>setSearchParams_calls := setSearchParams_calls h1 @ [searchParams h1]\<rparr>
                in (Inr newValue, h2))))"

text \<open>
  Lines 28 to 45: one call of \<^verbatim>\<open>setState\<close> as one update step. The state cell applies the
  function to its latest state and commits the value returned; when the function throws,
  nothing is committed and the exception is the outcome of the step. The step has two
  parts: \<open>updater\<close> is the run of the function, which writes the URL and leaves
  \<^verbatim>\<open>_state\<close> as it was, and the commit of the value it returned follows, at the next
  render. Whether the host framework runs the function inside the call or at the next
  render is not modelled.
\<close>

definition setState ::
  "('e, 'a) args \<Rightarrow> ('e, 'a) SetStateAction \<Rightarrow> 'a hook \<Rightarrow> 'e option \<times> 'a hook" where
  "setState args action h =
     (case updater args action (state h) h of
        (Inl e, h') \<Rightarrow> (Some e, h')
      | (Inr newValue, h') \<Rightarrow> (None, h'\<lparr>state := newValue\<rparr>))"

text \<open>
  Several calls of \<^verbatim>\<open>setState\<close> in one synchronous execution: the state cell queues the
  functions and runs them in the order of the calls, each on the state the one before it
  returned. An exception ends the run.
\<close>

fun setState_calls ::
  "('e, 'a) args \<Rightarrow> ('e, 'a) SetStateAction list \<Rightarrow> 'a hook \<Rightarrow> 'e option \<times> 'a hook" where
  "setState_calls args [] h = (None, h)"
| "setState_calls args (action # actions) h =
     (case setState args action h of
        (Some e, h') \<Rightarrow> (Some e, h')
      | (None, h') \<Rightarrow> setState_calls args actions h')"

text \<open>
  Lines 48 to 54: the effect that follows the URL. \<^verbatim>\<open>!==\<close> is taken on values that
  JavaScript compares by value (strings, booleans, numbers other than NaN).
\<close>

definition syncEffect :: "('e, 'a) args \<Rightarrow> 'a hook \<Rightarrow> 'e option \<times> 'a hook" where
  "syncEffect args h =
     (let paramValue = searchParams_get (searchParams h) (searchParamName args) in
      case fromParam args paramValue of
        Inl e \<Rightarrow> (Some e, h)
      | Inr newValue \<Rightarrow> (None, if state h \<noteq> newValue then h\<lparr>state := newValue\<rparr> else h))"

text \<open>
  A change of the URL that the hook did not ask for (navigation, another component, the
  address bar): the router hands the hook the parameters of the new location. A render
  at a location that a call of \<^verbatim>\<open>setSearchParams\<close> has asked for is the same step.
\<close>

definition navigate :: "URLSearchParams \<Rightarrow> 'a hook \<Rightarrow> 'a hook" where
  "navigate sp h = h\<lparr>searchParams := sp\<rparr>"

section \<open>The URL store\<close>

text \<open>
  Line 39 passes the object of the hook to \<^verbatim>\<open>setSearchParams\<close>, and the router replaces
  the whole set of parameters of the URL by the argument of each call. \<open>new_calls h h'\<close>
  are the calls that a step of the hook from \<open>h\<close> to \<open>h'\<close> has added, and
  \<open>url_after url h h'\<close> is the URL after the step when it was \<open>url\<close> before: the argument
  of the last call added, and \<open>url\<close> itself when the step has called nothing.
\<close>

definition new_calls :: "'a hook \<Rightarrow> 'a hook \<Rightarrow> URLSearchParams list" where
  "new_calls h h' = drop (length (setSearchParams_calls h)) (setSearchParams_calls h')"

definition url_after :: "URLSearchParams \<Rightarrow> 'a hook \<Rightarrow> 'a hook \<Rightarrow> URLSearchParams" where
  "url_after url h h' = foldl (\<lambda>u sp. sp) url (new_calls h h')"

section \<open>The configuration of the specification's examples\<close>

text \<open>
  The examples of the specification mount the hook on the parameter \<^verbatim>\<open>q\<close> with
  \<^verbatim>\<open>decode = s => s ? Number(s) : 0\<close> and \<^verbatim>\<open>encode = v => v === 0 ? undefined : String(v)\<close>.
  Of the JavaScript numbers only the natural numbers and NaN are represented here, and
  \<^verbatim>\<open>Number\<close> is modelled on strings of decimal digits; on any other string it returns
  \<open>NaN\<close>, which is JavaScript's result except on signed, fractional, exponent, radix-prefixed,
  whitespace-padded and \<^verbatim>\<open>Infinity\<close> literals, none of which occurs below.
  \<^verbatim>\<open>String\<close> prints a natural number in decimal digits, as JavaScript does below
  \<^verbatim>\<open>1e21\<close>. In the configurations of this and the next section an exception is the text
  thrown.
\<close>

datatype jsnumber = Number nat | NaN

definition digit :: "char \<Rightarrow> nat option" where
  "digit =
     map_of [(CHR ''0'', 0), (CHR ''1'', 1), (CHR ''2'', 2), (CHR ''3'', 3), (CHR ''4'', 4),
             (CHR ''5'', 5), (CHR ''6'', 6), (CHR ''7'', 7), (CHR ''8'', 8), (CHR ''9'', 9)]"

fun decimal :: "nat \<Rightarrow> string \<Rightarrow> nat option" where
  "decimal acc [] = Some acc"
| "decimal acc (c # cs) =
     (case digit c of None \<Rightarrow> None | Some d \<Rightarrow> decimal (10 * acc + d) cs)"

definition Number_of :: "string \<Rightarrow> jsnumber" where
  "Number_of s = (case decimal 0 s of Some n \<Rightarrow> Number n | None \<Rightarrow> NaN)"

fun digits :: "nat \<Rightarrow> string" where
  "digits n =
     (if n < 10 then [''0123456789'' ! n]
      else digits (n div 10) @ [''0123456789'' ! (n mod 10)])"

declare digits.simps [simp del]

fun String_of :: "jsnumber \<Rightarrow> string" where
  "String_of (Number n) = digits n"
| "String_of NaN = ''NaN''"

definition example_fromParam :: "string option \<Rightarrow> string + jsnumber" where
  "example_fromParam p =
     (case p of
        Some s \<Rightarrow> if s \<noteq> [] then Inr (Number_of s) else Inr (Number 0)
      | None \<Rightarrow> Inr (Number 0))"

definition example_toParam :: "jsnumber \<Rightarrow> string + string option" where
  "example_toParam v = (if v = Number 0 then Inr None else Inr (Some (String_of v)))"

definition example_args :: "(string, jsnumber) args" where
  "example_args =
     \<lparr>searchParamName = ''q'', fromParam = example_fromParam, toParam = example_toParam\<rparr>"


section \<open>Two configurations for a text parameter\<close>

text \<open>
  A caller that keeps a text in the parameter \<^verbatim>\<open>q\<close>, with a default for a URL without
  it: \<^verbatim>\<open>fromParam = s => s === null ? "all" : s\<close> and \<^verbatim>\<open>toParam = v => v\<close>. Every text
  is encoded as itself and decoded from itself.
\<close>

definition text_fromParam :: "string option \<Rightarrow> string + string" where
  "text_fromParam p = (case p of None \<Rightarrow> Inr ''all'' | Some s \<Rightarrow> Inr s)"

definition text_toParam :: "string \<Rightarrow> string + string option" where
  "text_toParam v = Inr (Some v)"

definition text_args :: "(string, string) args" where
  "text_args = \<lparr>searchParamName = ''q'', fromParam = text_fromParam, toParam = text_toParam\<rparr>"

text \<open>
  A caller whose functions throw: the decoder refuses the empty text,
  \<^verbatim>\<open>fromParam = s => { if (s === "") throw "empty"; return s === null ? "all" : s; }\<close>, the
  encoder refuses long texts,
  \<^verbatim>\<open>toParam = v => { if (v.length > 3) throw "too long"; return v; }\<close>, and the updater
  \<^verbatim>\<open>prev => { throw "no update"; }\<close> always throws.
\<close>

definition checked_fromParam :: "string option \<Rightarrow> string + string" where
  "checked_fromParam p =
     (case p of None \<Rightarrow> Inr ''all'' | Some s \<Rightarrow> if s = [] then Inl ''empty'' else Inr s)"

definition checked_toParam :: "string \<Rightarrow> string + string option" where
  "checked_toParam v = (if length v > 3 then Inl ''too long'' else Inr (Some v))"

definition checked_args :: "(string, string) args" where
  "checked_args =
     \<lparr>searchParamName = ''q'', fromParam = checked_fromParam, toParam = checked_toParam\<rparr>"

definition failing :: "string \<Rightarrow> string + string" where
  "failing prev = Inl ''no update''"

section \<open>Facts about the search parameters\<close>

lemma searchParams_get_None_iff:
  "searchParams_get ps name = None \<longleftrightarrow> name \<notin> fst ` set ps"
  by (induction ps name rule: searchParams_get.induct) auto

lemma searchParams_delete_filter:
  "searchParams_delete ps name = filter (\<lambda>p. fst p \<noteq> name) ps"
  by (induction ps name rule: searchParams_delete.induct) auto

lemma searchParams_get_delete:
  "searchParams_get (searchParams_delete ps name) k =
     (if k = name then None else searchParams_get ps k)"
  by (induction ps name rule: searchParams_delete.induct) auto

lemma searchParams_get_set:
  "searchParams_get (searchParams_set ps name s) k =
     (if k = name then Some s else searchParams_get ps k)"
  by (induction ps name s rule: searchParams_set.induct) (auto simp: searchParams_get_delete)

lemma searchParams_set_others:
  "filter (\<lambda>p. fst p \<noteq> name) (searchParams_set ps name s) = filter (\<lambda>p. fst p \<noteq> name) ps"
  by (induction ps name s rule: searchParams_set.induct) (auto simp: searchParams_delete_filter)

lemma searchParams_getAll_delete:
  "searchParams_getAll (searchParams_delete ps name) k =
     (if k = name then [] else searchParams_getAll ps k)"
  by (induction ps name rule: searchParams_delete.induct) (auto simp: searchParams_getAll_def)

lemma searchParams_getAll_set:
  "searchParams_getAll (searchParams_set ps name s) k =
     (if k = name then [s] else searchParams_getAll ps k)"
  by (induction ps name s rule: searchParams_set.induct)
     (auto simp: searchParams_getAll_def searchParams_getAll_delete[unfolded searchParams_getAll_def])

lemma searchParams_delete_others:
  "filter (\<lambda>p. fst p \<noteq> name) (searchParams_delete ps name) = filter (\<lambda>p. fst p \<noteq> name) ps"
  by (induction ps name rule: searchParams_delete.induct) auto

section \<open>Facts about one update step and one pass of the effect\<close>

lemma setState_throws_nextValue:
  "nextValue action (state h) = Inl e \<Longrightarrow> setState args action h = (Some e, h)"
  by (simp add: setState_def updater_def)

lemma setState_throws_toParam:
  "nextValue action (state h) = Inr v \<Longrightarrow> toParam args v = Inl e \<Longrightarrow>
   setState args action h = (Some e, h)"
  by (simp add: setState_def updater_def)

lemma setState_deletes:
  assumes "nextValue action (state h) = Inr v" and "toParam args v = Inr p"
    and "p = None \<or> p = Some []"
  shows "setState args action h =
    (None, \<lparr>state = v,
            searchParams = searchParams_delete (searchParams h) (searchParamName args),
            setSearchParams_calls = setSearchParams_calls h @
              [searchParams_delete (searchParams h) (searchParamName args)]\<rparr>)"
  using assms by (auto simp: setState_def updater_def Let_def)

lemma setState_sets:
  assumes "nextValue action (state h) = Inr v" and "toParam args v = Inr (Some s)"
    and "s \<noteq> []"
  shows "setState args action h =
    (None, \<lparr>state = v,
            searchParams = searchParams_set (searchParams h) (searchParamName args) s,
            setSearchParams_calls = setSearchParams_calls h @
              [searchParams_set (searchParams h) (searchParamName args) s]\<rparr>)"
  using assms by (auto simp: setState_def updater_def Let_def)

lemma setState_throws_iff:
  "fst (setState args action h) = Some e \<longleftrightarrow>
     nextValue action (state h) = Inl e \<or>
     (\<exists>v. nextValue action (state h) = Inr v \<and> toParam args v = Inl e)"
  by (auto simp: setState_def updater_def Let_def split: sum.splits option.splits)

lemma setState_get:
  assumes "nextValue action (state h) = Inr v" and "toParam args v = Inr p"
  shows "searchParams_get (searchParams (snd (setState args action h))) (searchParamName args) =
     (if p = Some [] then None else p)"
proof (cases "p = None \<or> p = Some []")
  case True
  with assms show ?thesis
    by (auto simp: setState_deletes searchParams_get_delete)
next
  case False
  then obtain s where "p = Some s" "s \<noteq> []" by (cases p) auto
  with assms show ?thesis
    by (simp add: setState_sets searchParams_get_set)
qed

lemma setState_getAll:
  assumes "nextValue action (state h) = Inr v" and "toParam args v = Inr p"
  shows "searchParams_getAll (searchParams (snd (setState args action h))) (searchParamName args) =
     (case p of Some s \<Rightarrow> if s \<noteq> [] then [s] else [] | None \<Rightarrow> [])"
proof (cases "p = None \<or> p = Some []")
  case True
  with assms show ?thesis
    by (auto simp: setState_deletes searchParams_getAll_delete)
next
  case False
  then obtain s where "p = Some s" "s \<noteq> []" by (cases p) auto
  with assms show ?thesis
    by (simp add: setState_sets searchParams_getAll_set)
qed

lemma setState_state:
  assumes "nextValue action (state h) = Inr v" and "toParam args v = Inr p"
  shows "fst (setState args action h) = None \<and> state (snd (setState args action h)) = v
    \<and> setSearchParams_calls (snd (setState args action h)) =
        setSearchParams_calls h @ [searchParams (snd (setState args action h))]"
proof (cases "p = None \<or> p = Some []")
  case True
  with assms show ?thesis
    by (auto simp: setState_deletes)
next
  case False
  then obtain s where "p = Some s" "s \<noteq> []" by (cases p) auto
  with assms show ?thesis
    by (simp add: setState_sets)
qed

lemma setState_others:
  "filter (\<lambda>q. fst q \<noteq> searchParamName args) (searchParams (snd (setState args action h))) =
   filter (\<lambda>q. fst q \<noteq> searchParamName args) (searchParams h)"
  by (auto simp: setState_def updater_def Let_def searchParams_set_others searchParams_delete_others
      split: sum.splits option.splits)

lemma setState_get_other:
  "k \<noteq> searchParamName args \<Longrightarrow>
   searchParams_get (searchParams (snd (setState args action h))) k = searchParams_get (searchParams h) k"
  by (auto simp: setState_def updater_def Let_def searchParams_get_set searchParams_get_delete
      split: sum.splits option.splits)

lemma setState_getAll_other:
  "k \<noteq> searchParamName args \<Longrightarrow>
   searchParams_getAll (searchParams (snd (setState args action h))) k =
   searchParams_getAll (searchParams h) k"
  by (auto simp: setState_def updater_def Let_def searchParams_getAll_set searchParams_getAll_delete
      split: sum.splits option.splits)

lemma syncEffect_throws:
  "fromParam args (searchParams_get (searchParams h) (searchParamName args)) = Inl e \<Longrightarrow>
   syncEffect args h = (Some e, h)"
  by (simp add: syncEffect_def)

lemma setState_returns_cases:
  assumes "fst (setState args action h) = None"
  obtains v p where "nextValue action (state h) = Inr v" and "toParam args v = Inr p"
  using assms
  by (auto simp: setState_def updater_def Let_def split: sum.splits)

lemma syncEffect_decodes:
  assumes "syncEffect args h = (None, h')"
  shows "fromParam args (searchParams_get (searchParams h') (searchParamName args)) = Inr (state h')"
  using assms by (auto simp: syncEffect_def split: sum.splits if_splits)

lemma mount_decodes:
  assumes "mount args sp = Inr h"
  shows "fromParam args (searchParams_get (searchParams h) (searchParamName args)) = Inr (state h)"
  using assms by (auto simp: mount_def split: sum.splits)

lemma new_calls_same: "setSearchParams_calls h' = setSearchParams_calls h \<Longrightarrow> new_calls h h' = []"
  by (simp add: new_calls_def)

lemma new_calls_one:
  "setSearchParams_calls h' = setSearchParams_calls h @ [sp] \<Longrightarrow> new_calls h h' = [sp]"
  by (simp add: new_calls_def)

lemma url_after_none: "new_calls h h' = [] \<Longrightarrow> url_after u h h' = u"
  by (simp add: url_after_def)

lemma url_after_one: "new_calls h h' = [sp] \<Longrightarrow> url_after u h h' = sp"
  by (simp add: url_after_def)

lemma updater_throws_nextValue:
  "nextValue action s = Inl e \<Longrightarrow> updater args action s h = (Inl e, h)"
  by (simp add: updater_def)

lemma updater_returns:
  assumes "nextValue action s = Inr v" and "toParam args v = Inr p"
  obtains hm where "updater args action s h = (Inr v, hm)"
    and "state hm = state h"
    and "setSearchParams_calls hm = setSearchParams_calls h @ [searchParams hm]"
    and "searchParams_get (searchParams hm) (searchParamName args) = (if p = Some [] then None else p)"
proof (cases "p = None \<or> p = Some []")
  case True
  let ?hm = "h\<lparr>searchParams := searchParams_delete (searchParams h) (searchParamName args),
      setSearchParams_calls := setSearchParams_calls h @
        [searchParams_delete (searchParams h) (searchParamName args)]\<rparr>"
  from True assms have "updater args action s h = (Inr v, ?hm)"
    by (auto simp: updater_def Let_def)
  moreover from True have "searchParams_get (searchParams ?hm) (searchParamName args) =
      (if p = Some [] then None else p)"
    by (auto simp: searchParams_get_delete)
  ultimately show ?thesis
    by (intro that [of ?hm]) simp_all
next
  case False
  then obtain s' where p: "p = Some s'" "s' \<noteq> []" by (cases p) auto
  let ?hm = "h\<lparr>searchParams := searchParams_set (searchParams h) (searchParamName args) s',
      setSearchParams_calls := setSearchParams_calls h @
        [searchParams_set (searchParams h) (searchParamName args) s']\<rparr>"
  from p assms have "updater args action s h = (Inr v, ?hm)"
    by (auto simp: updater_def Let_def)
  moreover from p have "searchParams_get (searchParams ?hm) (searchParamName args) =
      (if p = Some [] then None else p)"
    by (auto simp: searchParams_get_set)
  ultimately show ?thesis
    by (intro that [of ?hm]) simp_all
qed

lemma setState_commits:
  "updater args action (state h) h = (Inr v, hm) \<Longrightarrow> setState args action h = (None, hm\<lparr>state := v\<rparr>)"
  by (simp add: setState_def)

lemma setState_new_calls:
  assumes "nextValue action (state h) = Inr v" and "toParam args v = Inr p"
  shows "new_calls h (snd (setState args action h)) = [searchParams (snd (setState args action h))]"
  using setState_state [OF assms] by (simp add: new_calls_one)

lemma setState_url_after:
  assumes "nextValue action (state h) = Inr v" and "toParam args v = Inr p"
  shows "url_after u h (snd (setState args action h)) = searchParams (snd (setState args action h))"
  using setState_new_calls [OF assms] by (rule url_after_one)

lemma setState_throws_unchanged:
  assumes "fst (setState args action h) = Some e"
  shows "setState args action h = (Some e, h)"
proof -
  from assms have "nextValue action (state h) = Inl e \<or>
     (\<exists>v. nextValue action (state h) = Inr v \<and> toParam args v = Inl e)"
    by (simp add: setState_throws_iff)
  then show ?thesis
    by (auto simp: setState_throws_nextValue setState_throws_toParam)
qed

lemma searchParams_get_filter_others:
  "k \<noteq> name \<Longrightarrow>
   searchParams_get (filter (\<lambda>q. fst q \<noteq> name) ps) k = searchParams_get ps k"
  by (induction ps k rule: searchParams_get.induct) auto

lemma searchParams_getAll_filter_others:
  "k \<noteq> name \<Longrightarrow>
   searchParams_getAll (filter (\<lambda>q. fst q \<noteq> name) ps) k = searchParams_getAll ps k"
  by (induction ps) (auto simp: searchParams_getAll_def)

lemma others_agree:
  assumes "filter (\<lambda>q. fst q \<noteq> name) a = filter (\<lambda>q. fst q \<noteq> name) b" and "k \<noteq> name"
  shows "searchParams_get a k = searchParams_get b k"
    and "searchParams_getAll a k = searchParams_getAll b k"
    and "k \<in> fst ` set a \<longleftrightarrow> k \<in> fst ` set b"
proof -
  show get: "searchParams_get a k = searchParams_get b k"
    using searchParams_get_filter_others [OF assms(2), of a]
      searchParams_get_filter_others [OF assms(2), of b] assms(1)
    by simp
  show "searchParams_getAll a k = searchParams_getAll b k"
    using searchParams_getAll_filter_others [OF assms(2), of a]
      searchParams_getAll_filter_others [OF assms(2), of b] assms(1)
    by simp
  show "k \<in> fst ` set a \<longleftrightarrow> k \<in> fst ` set b"
    using get searchParams_get_None_iff [of a k] searchParams_get_None_iff [of b k]
    by simp
qed

section \<open>Facts about the example configurations\<close>

lemma text_args_round_trip:
  "toParam text_args x = Inr (Some s) \<Longrightarrow> fromParam text_args (Some s) = Inr x"
  by (simp add: text_args_def text_toParam_def text_fromParam_def)

lemma digit_nth: "d < 10 \<Longrightarrow> digit (''0123456789'' ! d) = Some d"
proof -
  assume "d < 10"
  then consider "d = 0" | "d = 1" | "d = 2" | "d = 3" | "d = 4" | "d = 5" | "d = 6" | "d = 7"
    | "d = 8" | "d = 9"
    by atomize_elim arith
  then show ?thesis
    by cases (simp_all add: digit_def)
qed

lemma decimal_snoc:
  "decimal acc (cs @ [c]) =
     (case decimal acc cs of None \<Rightarrow> None
      | Some m \<Rightarrow> (case digit c of None \<Rightarrow> None | Some d \<Rightarrow> Some (10 * m + d)))"
  by (induction cs arbitrary: acc) (auto split: option.splits)

lemma decimal_digits: "decimal 0 (digits n) = Some n"
proof (induction n rule: digits.induct)
  case (1 n)
  show ?case
  proof (cases "n < 10")
    case True
    then show ?thesis
      by (subst digits.simps) (simp add: digit_nth)
  next
    case False
    with "1.IH" have "decimal 0 (digits (n div 10)) = Some (n div 10)"
      by simp
    with False show ?thesis
      by (subst digits.simps) (simp add: decimal_snoc digit_nth)
  qed
qed

lemma digits_not_empty: "digits n \<noteq> []"
  by (subst digits.simps) simp

lemma example_args_round_trip:
  "toParam example_args x = Inr (Some s) \<Longrightarrow> fromParam example_args (Some s) = Inr x"
  by (cases x)
    (auto simp: example_args_def example_toParam_def example_fromParam_def Number_of_def
      decimal_digits digits_not_empty digit_def split: if_splits)

section \<open>The initial state\<close>

lemma mount_fromParam:
  "map_sum id state (mount args sp) = fromParam args (searchParams_get sp (searchParamName args))"
  by (simp add: mount_def split: sum.splits)

text \<open>
  Claim C5. On mount the state is \<^verbatim>\<open>fromParam\<close> of what \<^verbatim>\<open>get\<close> returns for the parameter,
  and the exception of \<^verbatim>\<open>fromParam\<close> if it throws; a parameter that is not in the URL reaches
  \<^verbatim>\<open>fromParam\<close> as \<^verbatim>\<open>null\<close>. With the configuration of the examples, \<^verbatim>\<open>q=5\<close> gives the
  state 5 and a URL without \<^verbatim>\<open>q\<close> gives the state 0.
\<close>

theorem mount_state:
  "map_sum id state (mount args sp) = fromParam args (searchParams_get sp (searchParamName args))
   \<and> (searchParamName args \<notin> fst ` set sp \<longrightarrow>
        map_sum id state (mount args sp) = fromParam args None)
   \<and> map_sum id state (mount example_args [(''q'', ''5'')]) = Inr (Number 5)
   \<and> map_sum id state (mount example_args []) = Inr (Number 0)"
proof -
  have absent: "searchParamName args \<notin> fst ` set sp \<Longrightarrow>
      map_sum id state (mount args sp) = fromParam args None"
    using mount_fromParam [of args sp] searchParams_get_None_iff [of sp "searchParamName args"]
    by simp
  have five: "map_sum id state (mount example_args [(''q'', ''5'')]) = Inr (Number 5)"
    by (simp add: mount_fromParam example_args_def example_fromParam_def Number_of_def digit_def)
  have none: "map_sum id state (mount example_args []) = Inr (Number 0)"
    by (simp add: mount_fromParam example_args_def example_fromParam_def)
  from mount_fromParam [of args sp] absent five none show ?thesis by blast
qed

theorem mount_state_witness:
  "''q'' \<notin> fst ` set [(''page'', ''2'')]
   \<and> map_sum id state (mount example_args [(''page'', ''2'')]) = Inr (Number 0)"
proof -
  have "searchParamName example_args \<notin> fst ` set [(''page'', ''2'')]"
    by (simp add: example_args_def)
  with mount_state [of example_args "[(''page'', ''2'')]"]
  have "map_sum id state (mount example_args [(''page'', ''2'')]) = fromParam example_args None"
    by blast
  then show ?thesis
    by (simp add: example_args_def example_fromParam_def)
qed

section \<open>What an update writes\<close>

text \<open>
  Claim C2, where it fails. The claim has every string that \<^verbatim>\<open>toParam\<close> returns written
  to the URL, and the parameter removed only for \<^verbatim>\<open>undefined\<close>. With the text
  configuration, \<^verbatim>\<open>toParam("")\<close> is the string \<^verbatim>\<open>""\<close>, not \<^verbatim>\<open>undefined\<close>, and the
  update to \<^verbatim>\<open>""\<close> removes \<^verbatim>\<open>q\<close> from the URL \<^verbatim>\<open>q=a\<close>: the test \<^verbatim>\<open>if (newParamValue)\<close>
  of line 34 is false for the empty string.
\<close>

theorem setState_empty_string_counterexample:
  "toParam text_args [] = Inr (Some [])
   \<and> setState text_args (Value [])
        \<lparr>state = ''a'', searchParams = [(''q'', ''a'')], setSearchParams_calls = []\<rparr>
      = (None, \<lparr>state = [], searchParams = [], setSearchParams_calls = [[]]\<rparr>)
   \<and> searchParams_get [] ''q'' = None"
  by (simp add: setState_def updater_def nextValue_def text_args_def text_toParam_def)

text \<open>
  Claim C2, amended. An update that computes its next value, with \<open>p\<close> what \<^verbatim>\<open>toParam\<close>
  returns for it, calls \<^verbatim>\<open>setSearchParams\<close> once, with the object of the hook, which
  becomes the URL. If \<open>p\<close> is a string that is not empty, the parameter holds \<open>p\<close> in this
  URL, as its only value (earlier values are replaced); the parameter is absent from this
  URL if and only if \<open>p\<close> is \<^verbatim>\<open>undefined\<close> or the empty string. With
  \<^verbatim>\<open>encode = v => v === 0 ? undefined : String(v)\<close> the update to 0 turns the URL \<^verbatim>\<open>q=7\<close>
  into the URL without parameters.
\<close>

theorem setState_writes_or_removes:
  assumes "nextValue action (state h) = Inr v" and "toParam args v = Inr p"
    and "setState args action h = (r, h')"
  shows "r = None
   \<and> new_calls h h' = [searchParams h']
   \<and> url_after url h h' = searchParams h'
   \<and> searchParams_get (url_after url h h') (searchParamName args) =
        (if p = Some [] then None else p)
   \<and> searchParams_getAll (url_after url h h') (searchParamName args) =
        (case p of Some s \<Rightarrow> if s \<noteq> [] then [s] else [] | None \<Rightarrow> [])
   \<and> (searchParamName args \<notin> fst ` set (url_after url h h') \<longleftrightarrow> p = None \<or> p = Some [])
   \<and> toParam example_args (Number 0) = Inr None
   \<and> url_after [(''q'', ''7'')]
        \<lparr>state = Number 7, searchParams = [(''q'', ''7'')], setSearchParams_calls = []\<rparr>
        (snd (setState example_args (Value (Number 0))
          \<lparr>state = Number 7, searchParams = [(''q'', ''7'')], setSearchParams_calls = []\<rparr>)) = []"
proof -
  have h': "h' = snd (setState args action h)" and r': "r = fst (setState args action h)"
    using assms(3) by simp_all
  have r: "r = None"
    using setState_state [OF assms(1,2)] r' by simp
  have calls: "new_calls h h' = [searchParams h']"
    using setState_new_calls [OF assms(1,2)] h' by simp
  have url: "url_after url h h' = searchParams h'"
    using calls by (rule url_after_one)
  have get: "searchParams_get (url_after url h h') (searchParamName args) =
      (if p = Some [] then None else p)"
    using setState_get [OF assms(1,2)] h' url by simp
  have getAll: "searchParams_getAll (url_after url h h') (searchParamName args) =
      (case p of Some s \<Rightarrow> if s \<noteq> [] then [s] else [] | None \<Rightarrow> [])"
    using setState_getAll [OF assms(1,2)] h' url by simp
  have absent: "searchParamName args \<notin> fst ` set (url_after url h h') \<longleftrightarrow> p = None \<or> p = Some []"
    using get searchParams_get_None_iff [of "url_after url h h'" "searchParamName args"]
    by (auto split: if_splits)
  have enc: "toParam example_args (Number 0) = Inr None"
    by (simp add: example_args_def example_toParam_def)
  have zero: "url_after [(''q'', ''7'')]
        \<lparr>state = Number 7, searchParams = [(''q'', ''7'')], setSearchParams_calls = []\<rparr>
        (snd (setState example_args (Value (Number 0))
          \<lparr>state = Number 7, searchParams = [(''q'', ''7'')], setSearchParams_calls = []\<rparr>)) = []"
    by (simp add: setState_def updater_def nextValue_def example_args_def example_toParam_def
        url_after_def new_calls_def)
  from r calls url get getAll absent enc zero show ?thesis by blast
qed

theorem setState_writes_or_removes_witness:
  "nextValue (Value (Number 7)) (state \<lparr>state = Number 0, searchParams = [(''q'', ''1''), (''p'', ''2''), (''q'', ''3'')], setSearchParams_calls = []\<rparr>) = Inr (Number 7)
   \<and> toParam example_args (Number 7) = Inr (Some ''7'')
   \<and> setState example_args (Value (Number 7))
        \<lparr>state = Number 0, searchParams = [(''q'', ''1''), (''p'', ''2''), (''q'', ''3'')], setSearchParams_calls = []\<rparr>
      = (None, \<lparr>state = Number 7, searchParams = [(''q'', ''7''), (''p'', ''2'')],
                setSearchParams_calls = [[(''q'', ''7''), (''p'', ''2'')]]\<rparr>)
   \<and> url_after [(''q'', ''1''), (''p'', ''2''), (''q'', ''3'')]
        \<lparr>state = Number 0, searchParams = [(''q'', ''1''), (''p'', ''2''), (''q'', ''3'')], setSearchParams_calls = []\<rparr>
        \<lparr>state = Number 7, searchParams = [(''q'', ''7''), (''p'', ''2'')],
                setSearchParams_calls = [[(''q'', ''7''), (''p'', ''2'')]]\<rparr>
      = [(''q'', ''7''), (''p'', ''2'')]
   \<and> searchParams_getAll [(''q'', ''7''), (''p'', ''2'')] ''q'' = [''7'']"
proof -
  let ?h = "\<lparr>state = Number 0, searchParams = [(''q'', ''1''), (''p'', ''2''), (''q'', ''3'')], setSearchParams_calls = []\<rparr>"
  let ?h' = "\<lparr>state = Number 7, searchParams = [(''q'', ''7''), (''p'', ''2'')],
                setSearchParams_calls = [[(''q'', ''7''), (''p'', ''2'')]]\<rparr>"
  have a: "nextValue (Value (Number 7)) (state ?h) = Inr (Number 7)"
    by (simp add: nextValue_def)
  have b: "toParam example_args (Number 7) = Inr (Some ''7'')"
    by (simp add: example_args_def example_toParam_def digits.simps)
  have c: "setState example_args (Value (Number 7)) ?h = (None, ?h')"
    by (simp add: setState_def updater_def nextValue_def example_args_def example_toParam_def
        digits.simps)
  from setState_writes_or_removes
    [OF a b c, where url = "[(''q'', ''1''), (''p'', ''2''), (''q'', ''3'')]"] a b c
  show ?thesis
    by (simp add: example_args_def searchParams_getAll_def)
qed

section \<open>What an update leaves alone\<close>

text \<open>
  Claim C10, where it fails. The claim has every other key of the URL unchanged by an
  update. The update passes the object of the hook to \<^verbatim>\<open>setSearchParams\<close> (line 39), and
  this object is the one of the render in which the setter was created (lines 22 and
  44). When the URL has got the pair \<^verbatim>\<open>page=9\<close> since that render, the object does not
  have it, and the update to 7 turns the URL \<^verbatim>\<open>page=9&q=5\<close> into \<^verbatim>\<open>q=7\<close>.
\<close>

theorem setState_stale_object_counterexample:
  "searchParams_get [(''page'', ''9''), (''q'', ''5'')] ''page'' = Some ''9''
   \<and> setState example_args (Value (Number 7))
        \<lparr>state = Number 5, searchParams = [(''q'', ''5'')], setSearchParams_calls = []\<rparr>
      = (None, \<lparr>state = Number 7, searchParams = [(''q'', ''7'')],
                setSearchParams_calls = [[(''q'', ''7'')]]\<rparr>)
   \<and> url_after [(''page'', ''9''), (''q'', ''5'')]
        \<lparr>state = Number 5, searchParams = [(''q'', ''5'')], setSearchParams_calls = []\<rparr>
        \<lparr>state = Number 7, searchParams = [(''q'', ''7'')], setSearchParams_calls = [[(''q'', ''7'')]]\<rparr>
      = [(''q'', ''7'')]
   \<and> searchParams_get [(''q'', ''7'')] ''page'' = None"
  by (simp add: setState_def updater_def nextValue_def example_args_def example_toParam_def
      digits.simps url_after_def new_calls_def)

text \<open>
  Claim C10, amended. An update changes no pair of another name in the object of the
  hook: the pairs whose name is not \<^verbatim>\<open>searchParamName\<close> are the same before and after, in
  the same order. An update that returns calls \<^verbatim>\<open>setSearchParams\<close> once, with this
  object, which becomes the URL; an update that throws calls nothing and leaves the URL.
  So when the URL and the object of the hook have the same pairs of the other names
  before the update, these pairs are the same in the URL after it: for every other name
  \<open>k\<close> the value \<^verbatim>\<open>get\<close> returns, the values \<^verbatim>\<open>getAll\<close> returns and the presence of \<open>k\<close>
  are unchanged.
\<close>

theorem setState_other_keys:
  assumes "setState args action h = (r, h')"
  shows "filter (\<lambda>q. fst q \<noteq> searchParamName args) (searchParams h') =
           filter (\<lambda>q. fst q \<noteq> searchParamName args) (searchParams h)
   \<and> (k \<noteq> searchParamName args \<longrightarrow>
        searchParams_get (searchParams h') k = searchParams_get (searchParams h) k
        \<and> searchParams_getAll (searchParams h') k = searchParams_getAll (searchParams h) k
        \<and> (k \<in> fst ` set (searchParams h') \<longleftrightarrow> k \<in> fst ` set (searchParams h)))
   \<and> (r = None \<longrightarrow> new_calls h h' = [searchParams h'] \<and> url_after url h h' = searchParams h')
   \<and> (r \<noteq> None \<longrightarrow> new_calls h h' = [] \<and> url_after url h h' = url)
   \<and> (filter (\<lambda>q. fst q \<noteq> searchParamName args) url =
          filter (\<lambda>q. fst q \<noteq> searchParamName args) (searchParams h) \<longrightarrow>
        filter (\<lambda>q. fst q \<noteq> searchParamName args) (url_after url h h') =
          filter (\<lambda>q. fst q \<noteq> searchParamName args) url
        \<and> (k \<noteq> searchParamName args \<longrightarrow>
             searchParams_get (url_after url h h') k = searchParams_get url k
             \<and> searchParams_getAll (url_after url h h') k = searchParams_getAll url k
             \<and> (k \<in> fst ` set (url_after url h h') \<longleftrightarrow> k \<in> fst ` set url)))"
proof -
  let ?others = "filter (\<lambda>q. fst q \<noteq> searchParamName args)"
  have h': "h' = snd (setState args action h)" and r': "r = fst (setState args action h)"
    using assms by simp_all
  have obj: "?others (searchParams h') = ?others (searchParams h)"
    using setState_others [of args action h] h' by simp
  have objk: "searchParams_get (searchParams h') k = searchParams_get (searchParams h) k
        \<and> searchParams_getAll (searchParams h') k = searchParams_getAll (searchParams h) k
        \<and> (k \<in> fst ` set (searchParams h') \<longleftrightarrow> k \<in> fst ` set (searchParams h))"
    if "k \<noteq> searchParamName args"
    using others_agree [OF obj that] by simp
  have ret: "new_calls h h' = [searchParams h'] \<and> url_after url h h' = searchParams h'"
    if "r = None"
  proof -
    from that r' have "fst (setState args action h) = None" by simp
    then obtain v p where nv: "nextValue action (state h) = Inr v" and tp: "toParam args v = Inr p"
      by (rule setState_returns_cases)
    from setState_new_calls [OF nv tp] setState_url_after [OF nv tp, of url] h'
    show ?thesis by simp
  qed
  have thr: "new_calls h h' = [] \<and> url_after url h h' = url" if "r \<noteq> None"
  proof -
    from that r' obtain e where "fst (setState args action h) = Some e" by auto
    then have "setState args action h = (Some e, h)" by (rule setState_throws_unchanged)
    with h' have "h' = h" by simp
    then show ?thesis by (simp add: new_calls_def url_after_def)
  qed
  have urlo: "?others (url_after url h h') = ?others url"
    if "?others url = ?others (searchParams h)"
  proof (cases "r = None")
    case True
    with ret obj that show ?thesis by simp
  next
    case False
    with thr show ?thesis by simp
  qed
  have urlk: "searchParams_get (url_after url h h') k = searchParams_get url k
             \<and> searchParams_getAll (url_after url h h') k = searchParams_getAll url k
             \<and> (k \<in> fst ` set (url_after url h h') \<longleftrightarrow> k \<in> fst ` set url)"
    if "?others url = ?others (searchParams h)" and "k \<noteq> searchParamName args"
    using others_agree [OF urlo [OF that(1)] that(2)] by simp
  from obj objk ret thr urlo urlk show ?thesis by blast
qed

theorem setState_other_keys_witness:
  "setState example_args (Value (Number 7))
        \<lparr>state = Number 5, searchParams = [(''page'', ''2''), (''q'', ''5''), (''page'', ''3'')],
          setSearchParams_calls = []\<rparr>
     = (None, \<lparr>state = Number 7, searchParams = [(''page'', ''2''), (''q'', ''7''), (''page'', ''3'')],
          setSearchParams_calls = [[(''page'', ''2''), (''q'', ''7''), (''page'', ''3'')]]\<rparr>)
   \<and> ''page'' \<noteq> searchParamName example_args
   \<and> url_after [(''page'', ''2''), (''q'', ''5''), (''page'', ''3'')]
        \<lparr>state = Number 5, searchParams = [(''page'', ''2''), (''q'', ''5''), (''page'', ''3'')],
          setSearchParams_calls = []\<rparr>
        \<lparr>state = Number 7, searchParams = [(''page'', ''2''), (''q'', ''7''), (''page'', ''3'')],
          setSearchParams_calls = [[(''page'', ''2''), (''q'', ''7''), (''page'', ''3'')]]\<rparr>
     = [(''page'', ''2''), (''q'', ''7''), (''page'', ''3'')]
   \<and> searchParams_getAll [(''page'', ''2''), (''q'', ''7''), (''page'', ''3'')] ''page'' = [''2'', ''3'']"
proof -
  let ?u = "[(''page'', ''2''), (''q'', ''5''), (''page'', ''3'')]"
  let ?h = "\<lparr>state = Number 5, searchParams = ?u, setSearchParams_calls = []\<rparr>"
  let ?h' = "\<lparr>state = Number 7, searchParams = [(''page'', ''2''), (''q'', ''7''), (''page'', ''3'')],
          setSearchParams_calls = [[(''page'', ''2''), (''q'', ''7''), (''page'', ''3'')]]\<rparr>"
  have step: "setState example_args (Value (Number 7)) ?h = (None, ?h')"
    by (simp add: setState_def updater_def nextValue_def example_args_def example_toParam_def
        digits.simps)
  have ne: "''page'' \<noteq> searchParamName example_args"
    by (simp add: example_args_def)
  from setState_other_keys [OF step, where url = ?u and k = "''page''"] step ne
  show ?thesis
    by (simp add: searchParams_getAll_def)
qed

text \<open>
  Claim C9. When the updater function or \<^verbatim>\<open>toParam\<close> throws in an update, the update
  changes nothing: the state, the search parameters and the calls of
  \<^verbatim>\<open>setSearchParams\<close> are what they were. Both are evaluated (lines 31 and 32) before the
  first write of line 35 or 37.
\<close>

theorem setState_failure_changes_nothing:
  assumes "fst (setState args action h) = Some e"
  shows "snd (setState args action h) = h
    \<and> state (snd (setState args action h)) = state h
    \<and> searchParams (snd (setState args action h)) = searchParams h
    \<and> setSearchParams_calls (snd (setState args action h)) = setSearchParams_calls h"
proof -
  from assms have "nextValue action (state h) = Inl e \<or>
     (\<exists>v. nextValue action (state h) = Inr v \<and> toParam args v = Inl e)"
    by (simp add: setState_throws_iff)
  then have "setState args action h = (Some e, h)"
    by (auto simp: setState_throws_nextValue setState_throws_toParam)
  then show ?thesis by simp
qed

theorem setState_failure_changes_nothing_witness:
  "fst (setState checked_args (Updater failing)
      \<lparr>state = ''a'', searchParams = [(''q'', ''a'')], setSearchParams_calls = []\<rparr>) = Some ''no update''
   \<and> snd (setState checked_args (Updater failing)
      \<lparr>state = ''a'', searchParams = [(''q'', ''a'')], setSearchParams_calls = []\<rparr>)
     = \<lparr>state = ''a'', searchParams = [(''q'', ''a'')], setSearchParams_calls = []\<rparr>
   \<and> fst (setState checked_args (Value ''long'')
      \<lparr>state = ''a'', searchParams = [(''q'', ''a'')], setSearchParams_calls = []\<rparr>) = Some ''too long''
   \<and> snd (setState checked_args (Value ''long'')
      \<lparr>state = ''a'', searchParams = [(''q'', ''a'')], setSearchParams_calls = []\<rparr>)
     = \<lparr>state = ''a'', searchParams = [(''q'', ''a'')], setSearchParams_calls = []\<rparr>"
proof -
  let ?h = "\<lparr>state = ''a'', searchParams = [(''q'', ''a'')], setSearchParams_calls = []\<rparr>"
  have a: "fst (setState checked_args (Updater failing) ?h) = Some ''no update''"
    by (simp add: setState_def updater_def nextValue_def failing_def)
  have b: "fst (setState checked_args (Value ''long'') ?h) = Some ''too long''"
    by (simp add: setState_def updater_def nextValue_def checked_args_def checked_toParam_def)
  from setState_failure_changes_nothing [OF a] setState_failure_changes_nothing [OF b] a b
  show ?thesis by simp
qed

section \<open>The URL and the state after mount, update and effect\<close>

text \<open>
  Claim C1, where it fails. The claim wants the parameter absent from the URL whenever
  \<^verbatim>\<open>toParam\<close> of the state is \<^verbatim>\<open>undefined\<close>, and the URL to decode to the state otherwise,
  after mount, after every update and after every pass of the effect. Mounted on \<^verbatim>\<open>q=0\<close>
  with the configuration of the examples, the state is 0 and \<^verbatim>\<open>toParam(0)\<close> is
  \<^verbatim>\<open>undefined\<close>, but \<^verbatim>\<open>q\<close> is still in the URL: mounting writes nothing. And with the text
  configuration, after the update to \<^verbatim>\<open>""\<close> the state is \<^verbatim>\<open>""\<close>, \<^verbatim>\<open>toParam\<close> of it is the
  string \<^verbatim>\<open>""\<close> and not \<^verbatim>\<open>undefined\<close>, yet \<^verbatim>\<open>q\<close> has been removed and the URL decodes to
  \<^verbatim>\<open>"all"\<close>.
\<close>

theorem invariant_counterexample:
  "mount example_args [(''q'', ''0'')] =
     Inr \<lparr>state = Number 0, searchParams = [(''q'', ''0'')], setSearchParams_calls = []\<rparr>
   \<and> toParam example_args (Number 0) = Inr None
   \<and> searchParams_get [(''q'', ''0'')] ''q'' = Some ''0''
   \<and> setState text_args (Value [])
        \<lparr>state = ''b'', searchParams = [(''q'', ''b'')], setSearchParams_calls = []\<rparr>
      = (None, \<lparr>state = [], searchParams = [], setSearchParams_calls = [[]]\<rparr>)
   \<and> toParam text_args [] = Inr (Some [])
   \<and> fromParam text_args (searchParams_get [] ''q'') = Inr ''all''"
  by (simp add: mount_def setState_def updater_def nextValue_def example_args_def
      example_fromParam_def example_toParam_def Number_of_def digit_def
      text_args_def text_toParam_def text_fromParam_def)

text \<open>
  Claim C1, amended. After mount the object of the hook is the parameters it was
  mounted with, nothing has been written, and the value of the parameter in them
  decodes to the state, whatever \<^verbatim>\<open>toParam\<close> returns for the state. After a pass of the effect that returns, the state is
  what the value of the parameter decodes to in the object that the pass was rendered
  with, and the pass has written nothing; this object is what the router handed to the
  render and need not be the URL. After an update that returns, with \<open>p\<close> what
  \<^verbatim>\<open>toParam\<close> returns for the new state, the update has called \<^verbatim>\<open>setSearchParams\<close> once
  and its argument is the URL: the parameter is absent from it when \<open>p\<close> is \<^verbatim>\<open>undefined\<close>
  or the empty string; otherwise the parameter holds \<open>p\<close>, so that the URL decodes to
  what \<^verbatim>\<open>fromParam\<close> makes of \<open>p\<close>, which is the state when \<^verbatim>\<open>fromParam\<close> of \<open>p\<close> is the
  state.
\<close>

theorem url_decodes_to_state:
  "(mount args sp = Inr h0 \<longrightarrow>
      searchParams h0 = sp \<and> setSearchParams_calls h0 = []
      \<and> fromParam args (searchParams_get sp (searchParamName args)) = Inr (state h0))
   \<and> (syncEffect args h = (None, h1) \<longrightarrow>
      searchParams h1 = searchParams h \<and> new_calls h h1 = [] \<and> url_after url h h1 = url
      \<and> fromParam args (searchParams_get (searchParams h) (searchParamName args)) = Inr (state h1))
   \<and> (setState args action h = (None, h2) \<and> toParam args (state h2) = Inr p \<longrightarrow>
      new_calls h h2 = [searchParams h2]
      \<and> url_after url h h2 = searchParams h2
      \<and> searchParams_get (url_after url h h2) (searchParamName args) =
           (if p = Some [] then None else p)
      \<and> (p = None \<or> p = Some [] \<longrightarrow> searchParamName args \<notin> fst ` set (url_after url h h2))
      \<and> (p \<noteq> None \<and> p \<noteq> Some [] \<longrightarrow>
           fromParam args (searchParams_get (url_after url h h2) (searchParamName args)) =
             fromParam args p)
      \<and> (p \<noteq> None \<and> p \<noteq> Some [] \<and> fromParam args p = Inr (state h2) \<longrightarrow>
           fromParam args (searchParams_get (url_after url h h2) (searchParamName args)) =
             Inr (state h2)))"
proof -
  have mnt: "searchParams h0 = sp \<and> setSearchParams_calls h0 = []
      \<and> fromParam args (searchParams_get sp (searchParamName args)) = Inr (state h0)"
    if "mount args sp = Inr h0"
    using that by (auto simp: mount_def split: sum.splits)
  have syn: "searchParams h1 = searchParams h \<and> new_calls h h1 = [] \<and> url_after url h h1 = url
      \<and> fromParam args (searchParams_get (searchParams h) (searchParamName args)) = Inr (state h1)"
    if "syncEffect args h = (None, h1)"
    using that
    by (auto simp: syncEffect_def new_calls_def url_after_def split: sum.splits if_splits)
  have upd: "new_calls h h2 = [searchParams h2] \<and> url_after url h h2 = searchParams h2
      \<and> searchParams_get (url_after url h h2) (searchParamName args) =
           (if p = Some [] then None else p)"
    if step: "setState args action h = (None, h2)" and enc: "toParam args (state h2) = Inr p"
  proof -
    from step have "fst (setState args action h) = None" by simp
    then obtain v p' where nv: "nextValue action (state h) = Inr v"
      and tp: "toParam args v = Inr p'"
      by (rule setState_returns_cases)
    from setState_state [OF nv tp] step have "state h2 = v" by simp
    with enc tp have "p' = p" by simp
    with setState_get [OF nv tp] setState_new_calls [OF nv tp]
      setState_url_after [OF nv tp, of url] step
    show ?thesis by simp
  qed
  have C: "new_calls h h2 = [searchParams h2]
      \<and> url_after url h h2 = searchParams h2
      \<and> searchParams_get (url_after url h h2) (searchParamName args) =
           (if p = Some [] then None else p)
      \<and> (p = None \<or> p = Some [] \<longrightarrow> searchParamName args \<notin> fst ` set (url_after url h h2))
      \<and> (p \<noteq> None \<and> p \<noteq> Some [] \<longrightarrow>
           fromParam args (searchParams_get (url_after url h h2) (searchParamName args)) =
             fromParam args p)
      \<and> (p \<noteq> None \<and> p \<noteq> Some [] \<and> fromParam args p = Inr (state h2) \<longrightarrow>
           fromParam args (searchParams_get (url_after url h h2) (searchParamName args)) =
             Inr (state h2))"
    if step: "setState args action h = (None, h2) \<and> toParam args (state h2) = Inr p"
  proof -
    from step have u: "new_calls h h2 = [searchParams h2] \<and> url_after url h h2 = searchParams h2
      \<and> searchParams_get (url_after url h h2) (searchParamName args) =
           (if p = Some [] then None else p)"
      using upd by blast
    then have get: "searchParams_get (url_after url h h2) (searchParamName args) =
           (if p = Some [] then None else p)"
      by blast
    have absent: "searchParamName args \<notin> fst ` set (url_after url h h2)"
      if "p = None \<or> p = Some []"
      using get that searchParams_get_None_iff [of "url_after url h h2" "searchParamName args"]
      by auto
    have present: "fromParam args (searchParams_get (url_after url h h2) (searchParamName args)) =
             fromParam args p"
      if "p \<noteq> None \<and> p \<noteq> Some []"
      using get that by auto
    have trip: "fromParam args (searchParams_get (url_after url h h2) (searchParamName args)) =
             Inr (state h2)"
      if "p \<noteq> None \<and> p \<noteq> Some [] \<and> fromParam args p = Inr (state h2)"
      using present that by simp
    from u absent present trip show ?thesis by blast
  qed
  from mnt syn C show ?thesis by blast
qed

theorem url_decodes_to_state_witness:
  "mount example_args [(''q'', ''5'')] =
      Inr \<lparr>state = Number 5, searchParams = [(''q'', ''5'')], setSearchParams_calls = []\<rparr>
   \<and> fromParam example_args (searchParams_get [(''q'', ''5'')] ''q'') = Inr (Number 5)
   \<and> syncEffect example_args
        \<lparr>state = Number 5, searchParams = [(''q'', ''6'')], setSearchParams_calls = []\<rparr>
      = (None, \<lparr>state = Number 6, searchParams = [(''q'', ''6'')], setSearchParams_calls = []\<rparr>)
   \<and> fromParam example_args (searchParams_get [(''q'', ''6'')] ''q'') = Inr (Number 6)
   \<and> setState example_args (Value (Number 7))
        \<lparr>state = Number 6, searchParams = [(''q'', ''6'')], setSearchParams_calls = []\<rparr>
      = (None, \<lparr>state = Number 7, searchParams = [(''q'', ''7'')],
                setSearchParams_calls = [[(''q'', ''7'')]]\<rparr>)
   \<and> toParam example_args (Number 7) = Inr (Some ''7'')
   \<and> fromParam example_args (Some ''7'') = Inr (Number 7)
   \<and> url_after [(''q'', ''6'')]
        \<lparr>state = Number 6, searchParams = [(''q'', ''6'')], setSearchParams_calls = []\<rparr>
        \<lparr>state = Number 7, searchParams = [(''q'', ''7'')], setSearchParams_calls = [[(''q'', ''7'')]]\<rparr>
      = [(''q'', ''7'')]
   \<and> fromParam example_args (searchParams_get [(''q'', ''7'')] ''q'') = Inr (Number 7)"
proof -
  let ?h5 = "\<lparr>state = Number 5, searchParams = [(''q'', ''5'')], setSearchParams_calls = []\<rparr>"
  let ?h56 = "\<lparr>state = Number 5, searchParams = [(''q'', ''6'')], setSearchParams_calls = []\<rparr>"
  let ?h6 = "\<lparr>state = Number 6, searchParams = [(''q'', ''6'')], setSearchParams_calls = []\<rparr>"
  let ?h7 = "\<lparr>state = Number 7, searchParams = [(''q'', ''7'')],
                setSearchParams_calls = [[(''q'', ''7'')]]\<rparr>"
  have m: "mount example_args [(''q'', ''5'')] = Inr ?h5"
    by (simp add: mount_def example_args_def example_fromParam_def Number_of_def digit_def)
  have s: "syncEffect example_args ?h56 = (None, ?h6)"
    by (simp add: syncEffect_def example_args_def example_fromParam_def Number_of_def digit_def)
  have u: "setState example_args (Value (Number 7)) ?h6 = (None, ?h7)"
    by (simp add: setState_def updater_def nextValue_def example_args_def example_toParam_def
        digits.simps)
  have e: "toParam example_args (state ?h7) = Inr (Some ''7'')"
    by (simp add: example_args_def example_toParam_def digits.simps)
  have d: "fromParam example_args (Some ''7'') = Inr (state ?h7)"
    by (simp add: example_args_def example_fromParam_def Number_of_def digit_def)
  have n: "searchParamName example_args = ''q''"
    by (simp add: example_args_def)
  from url_decodes_to_state [where args = example_args and sp = "[(''q'', ''5'')]" and ?h0.0 = ?h5
      and h = ?h56 and ?h1.0 = ?h6 and url = "[(''q'', ''6'')]"]
  have 1: "fromParam example_args (searchParams_get [(''q'', ''5'')] ''q'') = Inr (Number 5)"
    and 2: "fromParam example_args (searchParams_get [(''q'', ''6'')] ''q'') = Inr (Number 6)"
    using m s n by simp_all
  from url_decodes_to_state [where args = example_args and action = "Value (Number 7)"
      and h = ?h6 and ?h2.0 = ?h7 and p = "Some ''7''" and url = "[(''q'', ''6'')]"]
  have 3: "url_after [(''q'', ''6'')] ?h6 ?h7 = [(''q'', ''7'')]"
    and 4: "fromParam example_args (searchParams_get (url_after [(''q'', ''6'')] ?h6 ?h7) ''q'')
        = Inr (Number 7)"
    using u e d n by simp_all
  from m s u e d 1 2 3 4 show ?thesis by simp
qed

section \<open>The effect follows the URL\<close>

text \<open>
  Claim C3. After a change of the URL from outside, a pass of the effect in which
  \<^verbatim>\<open>fromParam\<close> returns \<open>d\<close> leaves the state equal to \<open>d\<close>: it replaces the state when the
  two differ. No pass of the effect writes the URL: the search parameters and the calls
  of \<^verbatim>\<open>setSearchParams\<close> are the same after it, whether \<^verbatim>\<open>fromParam\<close> returns or throws.
  With the configuration of the examples, the change from \<^verbatim>\<open>q=7\<close> to \<^verbatim>\<open>q=9\<close> sets the state
  to 9 and adds no call of \<^verbatim>\<open>setSearchParams\<close>.
\<close>

theorem syncEffect_follows_url:
  "(fromParam args (searchParams_get sp (searchParamName args)) = Inr d \<longrightarrow>
      syncEffect args (navigate sp h) =
        (None, \<lparr>state = d, searchParams = sp, setSearchParams_calls = setSearchParams_calls h\<rparr>))
   \<and> searchParams (snd (syncEffect args h)) = searchParams h
   \<and> setSearchParams_calls (snd (syncEffect args h)) = setSearchParams_calls h
   \<and> syncEffect example_args (navigate [(''q'', ''9'')]
         \<lparr>state = Number 7, searchParams = [(''q'', ''7'')], setSearchParams_calls = [[(''q'', ''7'')]]\<rparr>)
       = (None, \<lparr>state = Number 9, searchParams = [(''q'', ''9'')],
                 setSearchParams_calls = [[(''q'', ''7'')]]\<rparr>)"
proof -
  have a: "syncEffect args (navigate sp h) =
        (None, \<lparr>state = d, searchParams = sp, setSearchParams_calls = setSearchParams_calls h\<rparr>)"
    if "fromParam args (searchParams_get sp (searchParamName args)) = Inr d"
    using that by (simp add: syncEffect_def navigate_def)
  have b: "searchParams (snd (syncEffect args h)) = searchParams h"
    by (simp add: syncEffect_def split: sum.splits)
  have c: "setSearchParams_calls (snd (syncEffect args h)) = setSearchParams_calls h"
    by (simp add: syncEffect_def split: sum.splits)
  have d: "syncEffect example_args (navigate [(''q'', ''9'')]
         \<lparr>state = Number 7, searchParams = [(''q'', ''7'')], setSearchParams_calls = [[(''q'', ''7'')]]\<rparr>)
       = (None, \<lparr>state = Number 9, searchParams = [(''q'', ''9'')],
                 setSearchParams_calls = [[(''q'', ''7'')]]\<rparr>)"
    by (simp add: syncEffect_def navigate_def example_args_def example_fromParam_def
        Number_of_def digit_def)
  from a b c d show ?thesis by blast
qed

theorem syncEffect_follows_url_witness:
  "fromParam text_args (searchParams_get [(''q'', ''new'')] (searchParamName text_args)) = Inr ''new''
   \<and> syncEffect text_args (navigate [(''q'', ''new'')]
        \<lparr>state = ''old'', searchParams = [(''q'', ''old'')], setSearchParams_calls = []\<rparr>)
      = (None, \<lparr>state = ''new'', searchParams = [(''q'', ''new'')], setSearchParams_calls = []\<rparr>)"
proof -
  have a: "fromParam text_args (searchParams_get [(''q'', ''new'')] (searchParamName text_args)) = Inr ''new''"
    by (simp add: text_args_def text_fromParam_def)
  with syncEffect_follows_url [of text_args "[(''q'', ''new'')]" "''new''"
      "\<lparr>state = ''old'', searchParams = [(''q'', ''old'')], setSearchParams_calls = []\<rparr>"]
  show ?thesis by simp
qed

section \<open>Updates in one execution\<close>





section \<open>The run of an update and its commit\<close>

text \<open>
  Claim C6, where it fails. The claim has no state in which the URL has changed and
  the state has not, and has the state 7 observable when the call of the update to 7
  returns. The function that \<^verbatim>\<open>setState\<close> hands to the state cell writes the URL
  (lines 34 to 39) and only returns the new value (line 41); the state cell commits it
  later. When the function has run on the state 0 and the empty URL, the URL is
  \<^verbatim>\<open>q=7\<close> and \<^verbatim>\<open>_state\<close> is still 0.
\<close>

theorem run_before_commit_counterexample:
  "updater example_args (Value (Number 7)) (Number 0)
       \<lparr>state = Number 0, searchParams = [], setSearchParams_calls = []\<rparr>
     = (Inr (Number 7),
        \<lparr>state = Number 0, searchParams = [(''q'', ''7'')], setSearchParams_calls = [[(''q'', ''7'')]]\<rparr>)
   \<and> url_after []
        \<lparr>state = Number 0, searchParams = [], setSearchParams_calls = []\<rparr>
        \<lparr>state = Number 0, searchParams = [(''q'', ''7'')], setSearchParams_calls = [[(''q'', ''7'')]]\<rparr>
     = [(''q'', ''7'')]
   \<and> state \<lparr>state = Number 0, searchParams = [(''q'', ''7'')],
         setSearchParams_calls = [[(''q'', ''7'')]]\<rparr> = Number 0"
  by (simp add: updater_def nextValue_def example_args_def example_toParam_def digits.simps
      url_after_def new_calls_def)

text \<open>
  Claim C6, amended. For an update that computes its next value \<open>v\<close>, with \<open>p\<close> what
  \<^verbatim>\<open>toParam\<close> returns for it, the write of the URL and the new state come from one run of
  the function handed to the state cell: the run calls \<^verbatim>\<open>setSearchParams\<close> once, with the
  parameter written (or removed, for \<^verbatim>\<open>undefined\<close> and the empty string), leaves
  \<^verbatim>\<open>_state\<close> as it was and returns \<open>v\<close>; the commit that follows changes the state to \<open>v\<close>
  and nothing else. A further update of the same execution runs on \<open>v\<close> and on the
  parameters that the first one has written, and its own call of \<^verbatim>\<open>setSearchParams\<close>
  comes second. Starting from the state 0 and the empty URL, the update to 7, once
  committed, leaves the state 7 and the URL \<^verbatim>\<open>q=7\<close>.
\<close>

theorem setState_run_then_commit:
  assumes "nextValue action (state h) = Inr v" and "toParam args v = Inr p"
  shows "(\<exists>hm. updater args action (state h) h = (Inr v, hm)
            \<and> state hm = state h
            \<and> new_calls h hm = [searchParams hm]
            \<and> url_after url h hm = searchParams hm
            \<and> searchParams_get (url_after url h hm) (searchParamName args) =
                (if p = Some [] then None else p)
            \<and> setState args action h = (None, hm\<lparr>state := v\<rparr>)
            \<and> (toParam args (g v) = Inr p2 \<longrightarrow>
                 (\<exists>h2. setState_calls args [action, Updater (\<lambda>x. Inr (g x))] h = (None, h2)
                    \<and> state h2 = g v
                    \<and> new_calls h h2 = [searchParams hm, searchParams h2]
                    \<and> url_after url h h2 = searchParams h2
                    \<and> searchParams_get (url_after url h h2) (searchParamName args) =
                        (if p2 = Some [] then None else p2))))
   \<and> setState example_args (Value (Number 7))
        \<lparr>state = Number 0, searchParams = [], setSearchParams_calls = []\<rparr>
      = (None, \<lparr>state = Number 7, searchParams = [(''q'', ''7'')],
                setSearchParams_calls = [[(''q'', ''7'')]]\<rparr>)"
proof -
  obtain hm where run: "updater args action (state h) h = (Inr v, hm)"
    and st: "state hm = state h"
    and calls: "setSearchParams_calls hm = setSearchParams_calls h @ [searchParams hm]"
    and get: "searchParams_get (searchParams hm) (searchParamName args) =
        (if p = Some [] then None else p)"
    using assms by (rule updater_returns)
  have nc: "new_calls h hm = [searchParams hm]"
    using calls by (rule new_calls_one)
  have url: "url_after url h hm = searchParams hm"
    using nc by (rule url_after_one)
  have commit: "setState args action h = (None, hm\<lparr>state := v\<rparr>)"
    using run by (rule setState_commits)
  have later: "\<exists>h2. setState_calls args [action, Updater (\<lambda>x. Inr (g x))] h = (None, h2)
        \<and> state h2 = g v
        \<and> new_calls h h2 = [searchParams hm, searchParams h2]
        \<and> url_after url h h2 = searchParams h2
        \<and> searchParams_get (url_after url h h2) (searchParamName args) =
            (if p2 = Some [] then None else p2)"
    if tp2: "toParam args (g v) = Inr p2"
  proof -
    let ?h1 = "hm\<lparr>state := v\<rparr>"
    let ?a2 = "Updater (\<lambda>x. Inr (g x))"
    have nv2: "nextValue ?a2 (state ?h1) = Inr (g v)"
      by (simp add: nextValue_def)
    obtain r h2 where step2: "setState args ?a2 ?h1 = (r, h2)"
      by (cases "setState args ?a2 ?h1")
    from setState_state [OF nv2 tp2] step2
    have r: "r = None" and st2: "state h2 = g v"
      and calls2: "setSearchParams_calls h2 = setSearchParams_calls ?h1 @ [searchParams h2]"
      by simp_all
    from setState_get [OF nv2 tp2] step2
    have get2: "searchParams_get (searchParams h2) (searchParamName args) =
        (if p2 = Some [] then None else p2)"
      by simp
    from calls calls2
    have all: "setSearchParams_calls h2 = setSearchParams_calls h @ [searchParams hm, searchParams h2]"
      by simp
    then have nc2: "new_calls h h2 = [searchParams hm, searchParams h2]"
      by (simp add: new_calls_def)
    then have url2: "url_after url h h2 = searchParams h2"
      by (simp add: url_after_def)
    have run2: "setState_calls args [action, ?a2] h = (None, h2)"
      using commit step2 r by simp
    from run2 st2 nc2 url2 get2 show ?thesis by simp
  qed
  have seven: "setState example_args (Value (Number 7))
        \<lparr>state = Number 0, searchParams = [], setSearchParams_calls = []\<rparr>
      = (None, \<lparr>state = Number 7, searchParams = [(''q'', ''7'')],
                setSearchParams_calls = [[(''q'', ''7'')]]\<rparr>)"
    by (simp add: setState_def updater_def nextValue_def example_args_def example_toParam_def
        digits.simps)
  from run st nc url get commit later seven show ?thesis
    by (intro conjI exI [of _ hm]) (simp_all add: url)
qed

theorem setState_run_then_commit_witness:
  "nextValue (Value ''a'') (state \<lparr>state = ''x'', searchParams = [(''q'', ''x'')], setSearchParams_calls = []\<rparr>) = Inr ''a''
   \<and> toParam text_args ''a'' = Inr (Some ''a'')
   \<and> toParam text_args (''a'' @ ''b'') = Inr (Some ''ab'')
   \<and> updater text_args (Value ''a'') ''x''
        \<lparr>state = ''x'', searchParams = [(''q'', ''x'')], setSearchParams_calls = []\<rparr>
      = (Inr ''a'', \<lparr>state = ''x'', searchParams = [(''q'', ''a'')],
                      setSearchParams_calls = [[(''q'', ''a'')]]\<rparr>)
   \<and> setState text_args (Value ''a'')
        \<lparr>state = ''x'', searchParams = [(''q'', ''x'')], setSearchParams_calls = []\<rparr>
      = (None, \<lparr>state = ''a'', searchParams = [(''q'', ''a'')],
                 setSearchParams_calls = [[(''q'', ''a'')]]\<rparr>)
   \<and> setState_calls text_args [Value ''a'', Updater (\<lambda>x. Inr (x @ ''b''))]
        \<lparr>state = ''x'', searchParams = [(''q'', ''x'')], setSearchParams_calls = []\<rparr>
      = (None, \<lparr>state = ''ab'', searchParams = [(''q'', ''ab'')],
                 setSearchParams_calls = [[(''q'', ''a'')], [(''q'', ''ab'')]]\<rparr>)"
proof -
  let ?h = "\<lparr>state = ''x'', searchParams = [(''q'', ''x'')], setSearchParams_calls = []\<rparr>"
  have a: "nextValue (Value ''a'') (state ?h) = Inr ''a''"
    by (simp add: nextValue_def)
  have b: "toParam text_args ''a'' = Inr (Some ''a'')"
    by (simp add: text_args_def text_toParam_def)
  have c: "toParam text_args (''a'' @ ''b'') = Inr (Some ''ab'')"
    by (simp add: text_args_def text_toParam_def)
  from setState_run_then_commit [OF a b, where url = "[(''q'', ''x'')]" and g = "\<lambda>x. x @ ''b''"
      and ?p2.0 = "Some ''ab''"] c
  obtain hm h2 where run: "updater text_args (Value ''a'') (state ?h) ?h = (Inr ''a'', hm)"
    and commit: "setState text_args (Value ''a'') ?h = (None, hm\<lparr>state := ''a''\<rparr>)"
    and both: "setState_calls text_args [Value ''a'', Updater (\<lambda>x. Inr (x @ ''b''))] ?h = (None, h2)"
    by blast
  have hm: "updater text_args (Value ''a'') (state ?h) ?h
      = (Inr ''a'', \<lparr>state = ''x'', searchParams = [(''q'', ''a'')],
                      setSearchParams_calls = [[(''q'', ''a'')]]\<rparr>)"
    by (simp add: updater_def nextValue_def text_args_def text_toParam_def)
  have h2: "setState_calls text_args [Value ''a'', Updater (\<lambda>x. Inr (x @ ''b''))] ?h
      = (None, \<lparr>state = ''ab'', searchParams = [(''q'', ''ab'')],
                 setSearchParams_calls = [[(''q'', ''a'')], [(''q'', ''ab'')]]\<rparr>)"
    by (simp add: setState_def updater_def nextValue_def text_args_def text_toParam_def)
  from run commit both hm h2 a b c show ?thesis by simp
qed

section \<open>Round trip\<close>

text \<open>
  Claim C7, where it fails. The text configuration round-trips (\<open>text_args_round_trip\<close>);
  \<^verbatim>\<open>toParam("")\<close> is the string \<^verbatim>\<open>""\<close> and \<^verbatim>\<open>fromParam("")\<close> is \<^verbatim>\<open>""\<close> again. Yet after the
  update to \<^verbatim>\<open>""\<close> the parameter is gone from the URL, the URL decodes to \<^verbatim>\<open>"all"\<close> and not
  to the state \<^verbatim>\<open>""\<close>, and the pass of the effect that follows changes the state to
  \<^verbatim>\<open>"all"\<close>.
\<close>

theorem round_trip_empty_string_counterexample:
  "toParam text_args [] = Inr (Some [])
   \<and> fromParam text_args (Some []) = Inr []
   \<and> setState text_args (Value [])
        \<lparr>state = ''c'', searchParams = [(''q'', ''c'')], setSearchParams_calls = []\<rparr>
      = (None, \<lparr>state = [], searchParams = [], setSearchParams_calls = [[]]\<rparr>)
   \<and> fromParam text_args (searchParams_get [] ''q'') = Inr ''all''
   \<and> syncEffect text_args \<lparr>state = [], searchParams = [], setSearchParams_calls = [[]]\<rparr>
      = (None, \<lparr>state = ''all'', searchParams = [], setSearchParams_calls = [[]]\<rparr>)"
  by (simp add: setState_def updater_def nextValue_def syncEffect_def
      text_args_def text_toParam_def text_fromParam_def)

text \<open>
  Claim C7, amended. For a configuration that round-trips, an update whose next value
  \<open>v\<close> is encoded as a string \<open>s\<close> that is not empty commits the state \<open>v\<close> and calls
  \<^verbatim>\<open>setSearchParams\<close> once; its argument is the URL, in which the parameter holds \<open>s\<close>,
  which decodes to \<open>v\<close>. A pass of the effect that is rendered with this URL, and any
  pass rendered while the state is \<open>v\<close> and the parameter holds \<open>s\<close>, changes nothing.
  Nothing is said of a pass that the router renders with an older location.
\<close>

theorem round_trip_preserved:
  assumes "\<And>x s. toParam args x = Inr (Some s) \<Longrightarrow> fromParam args (Some s) = Inr x"
    and "nextValue action (state h) = Inr v" and "toParam args v = Inr (Some s)" and "s \<noteq> []"
    and "setState args action h = (r, h')"
  shows "r = None
     \<and> state h' = v
     \<and> new_calls h h' = [searchParams h']
     \<and> url_after url h h' = searchParams h'
     \<and> searchParams_get (url_after url h h') (searchParamName args) = Some s
     \<and> fromParam args (searchParams_get (url_after url h h') (searchParamName args)) = Inr v
     \<and> syncEffect args (navigate (url_after url h h') h') = (None, navigate (url_after url h h') h')
     \<and> (\<forall>hr. state hr = v \<and> searchParams_get (searchParams hr) (searchParamName args) = Some s
           \<longrightarrow> syncEffect args hr = (None, hr))"
proof -
  have h': "h' = snd (setState args action h)" and r': "r = fst (setState args action h)"
    using assms(5) by simp_all
  from setState_state [OF assms(2,3)] h' r'
  have r: "r = None" and st: "state h' = v" by simp_all
  have nc: "new_calls h h' = [searchParams h']"
    using setState_new_calls [OF assms(2,3)] h' by simp
  have url: "url_after url h h' = searchParams h'"
    using nc by (rule url_after_one)
  have get: "searchParams_get (url_after url h h') (searchParamName args) = Some s"
    using setState_get [OF assms(2,3)] h' url assms(4) by simp
  have dec: "fromParam args (Some s) = Inr v"
    using assms(1) [OF assms(3)] .
  have pass: "syncEffect args hr = (None, hr)"
    if "state hr = v \<and> searchParams_get (searchParams hr) (searchParamName args) = Some s" for hr
    using that dec by (simp add: syncEffect_def)
  have nav: "navigate (url_after url h h') h' = h'"
    using url by (simp add: navigate_def)
  have here: "syncEffect args (navigate (url_after url h h') h') =
      (None, navigate (url_after url h h') h')"
    using pass [of h'] st get url nav by simp
  from r st nc url get dec here pass show ?thesis by simp
qed

theorem round_trip_preserved_witness:
  "nextValue (Value (Number 7)) (state \<lparr>state = Number 0, searchParams = [], setSearchParams_calls = []\<rparr>) = Inr (Number 7)
   \<and> toParam example_args (Number 7) = Inr (Some ''7'')
   \<and> ''7'' \<noteq> []
   \<and> setState example_args (Value (Number 7))
        \<lparr>state = Number 0, searchParams = [], setSearchParams_calls = []\<rparr>
      = (None, \<lparr>state = Number 7, searchParams = [(''q'', ''7'')],
                setSearchParams_calls = [[(''q'', ''7'')]]\<rparr>)
   \<and> url_after []
        \<lparr>state = Number 0, searchParams = [], setSearchParams_calls = []\<rparr>
        \<lparr>state = Number 7, searchParams = [(''q'', ''7'')], setSearchParams_calls = [[(''q'', ''7'')]]\<rparr>
      = [(''q'', ''7'')]
   \<and> fromParam example_args (searchParams_get [(''q'', ''7'')] ''q'') = Inr (Number 7)
   \<and> syncEffect example_args \<lparr>state = Number 7, searchParams = [(''q'', ''7'')],
                setSearchParams_calls = [[(''q'', ''7'')]]\<rparr>
      = (None, \<lparr>state = Number 7, searchParams = [(''q'', ''7'')],
                setSearchParams_calls = [[(''q'', ''7'')]]\<rparr>)"
proof -
  let ?h = "\<lparr>state = Number 0, searchParams = [], setSearchParams_calls = []\<rparr>"
  let ?h' = "\<lparr>state = Number 7, searchParams = [(''q'', ''7'')],
                setSearchParams_calls = [[(''q'', ''7'')]]\<rparr>"
  have a: "nextValue (Value (Number 7)) (state ?h) = Inr (Number 7)"
    by (simp add: nextValue_def)
  have b: "toParam example_args (Number 7) = Inr (Some ''7'')"
    by (simp add: example_args_def example_toParam_def digits.simps)
  have c: "''7'' \<noteq> []"
    by simp
  have u: "setState example_args (Value (Number 7)) ?h = (None, ?h')"
    by (simp add: setState_def updater_def nextValue_def example_args_def example_toParam_def
        digits.simps)
  have n: "searchParamName example_args = ''q''"
    by (simp add: example_args_def)
  note rt = round_trip_preserved [OF example_args_round_trip a b c u, where url = "[]"]
  from rt have 1: "url_after [] ?h ?h' = [(''q'', ''7'')]"
    by auto
  from rt n have 2: "fromParam example_args (searchParams_get (url_after [] ?h ?h') ''q'') = Inr (Number 7)"
    by auto
  from rt have 3: "syncEffect example_args (navigate (url_after [] ?h ?h') ?h') =
        (None, navigate (url_after [] ?h ?h') ?h')"
    by blast
  from 1 3 have 4: "syncEffect example_args ?h' = (None, ?h')"
    by (simp add: navigate_def)
  from a b c u 1 2 4 show ?thesis by simp
qed

section \<open>Exceptions\<close>

text \<open>
  Claim C8. An exception of \<^verbatim>\<open>fromParam\<close> or \<^verbatim>\<open>toParam\<close> (or of the updater function) is
  the outcome of the mount, the update or the pass of the effect that called it: the
  same exception, not caught and not wrapped, with the hook as it was, so nothing is
  tried again. The hook throws nothing of its own: mount, update and effect throw only
  when one of these functions does.
\<close>

theorem exceptions_propagate:
  "(fromParam args (searchParams_get sp (searchParamName args)) = Inl e \<longrightarrow> mount args sp = Inl e)
   \<and> (nextValue action (state h) = Inl e \<longrightarrow> setState args action h = (Some e, h))
   \<and> (nextValue action (state h) = Inr v \<and> toParam args v = Inl e \<longrightarrow>
        setState args action h = (Some e, h))
   \<and> (fromParam args (searchParams_get (searchParams h) (searchParamName args)) = Inl e \<longrightarrow>
        syncEffect args h = (Some e, h))
   \<and> (isl (mount args sp) \<longleftrightarrow> isl (fromParam args (searchParams_get sp (searchParamName args))))
   \<and> (fst (setState args action h) \<noteq> None \<longleftrightarrow>
        isl (nextValue action (state h))
        \<or> (\<exists>x. nextValue action (state h) = Inr x \<and> isl (toParam args x)))
   \<and> (fst (syncEffect args h) \<noteq> None \<longleftrightarrow>
        isl (fromParam args (searchParams_get (searchParams h) (searchParamName args))))"
proof -
  have m: "mount args sp = Inl e"
    if "fromParam args (searchParams_get sp (searchParamName args)) = Inl e"
    using that by (simp add: mount_def)
  have mi: "isl (mount args sp) \<longleftrightarrow> isl (fromParam args (searchParams_get sp (searchParamName args)))"
    by (simp add: mount_def split: sum.splits)
  have ui: "fst (setState args action h) \<noteq> None \<longleftrightarrow>
        isl (nextValue action (state h))
        \<or> (\<exists>x. nextValue action (state h) = Inr x \<and> isl (toParam args x))"
    by (auto simp: setState_def updater_def Let_def split: sum.splits)
  have si: "fst (syncEffect args h) \<noteq> None \<longleftrightarrow>
        isl (fromParam args (searchParams_get (searchParams h) (searchParamName args)))"
    by (simp add: syncEffect_def split: sum.splits)
  from m mi ui si setState_throws_nextValue [of action h e args]
    setState_throws_toParam [of action h v args e] syncEffect_throws [of args h e]
  show ?thesis by blast
qed

theorem exceptions_propagate_witness:
  "fromParam checked_args (searchParams_get [(''q'', [])] (searchParamName checked_args)) = Inl ''empty''
   \<and> mount checked_args [(''q'', [])] = Inl ''empty''
   \<and> nextValue (Updater failing) ''a'' = Inl ''no update''
   \<and> setState checked_args (Updater failing)
        \<lparr>state = ''a'', searchParams = [(''q'', [])], setSearchParams_calls = []\<rparr>
      = (Some ''no update'', \<lparr>state = ''a'', searchParams = [(''q'', [])], setSearchParams_calls = []\<rparr>)
   \<and> toParam checked_args ''long'' = Inl ''too long''
   \<and> setState checked_args (Value ''long'')
        \<lparr>state = ''a'', searchParams = [(''q'', [])], setSearchParams_calls = []\<rparr>
      = (Some ''too long'', \<lparr>state = ''a'', searchParams = [(''q'', [])], setSearchParams_calls = []\<rparr>)
   \<and> syncEffect checked_args
        \<lparr>state = ''a'', searchParams = [(''q'', [])], setSearchParams_calls = []\<rparr>
      = (Some ''empty'', \<lparr>state = ''a'', searchParams = [(''q'', [])], setSearchParams_calls = []\<rparr>)"
proof -
  let ?h = "\<lparr>state = ''a'', searchParams = [(''q'', [])], setSearchParams_calls = []\<rparr>"
  have a: "fromParam checked_args (searchParams_get [(''q'', [])] (searchParamName checked_args)) = Inl ''empty''"
    by (simp add: checked_args_def checked_fromParam_def)
  then have a': "fromParam checked_args (searchParams_get (searchParams ?h) (searchParamName checked_args)) = Inl ''empty''"
    by simp
  have b: "nextValue (Updater failing) (state ?h) = Inl ''no update''"
    by (simp add: nextValue_def failing_def)
  have c: "nextValue (Value ''long'') (state ?h) = Inr ''long''"
    by (simp add: nextValue_def)
  have d: "toParam checked_args ''long'' = Inl ''too long''"
    by (simp add: checked_args_def checked_toParam_def)
  from exceptions_propagate [of checked_args "[(''q'', [])]" "''empty''" "Updater failing" ?h]
    a a' b
  have 1: "mount checked_args [(''q'', [])] = Inl ''empty''"
    and 2: "syncEffect checked_args ?h = (Some ''empty'', ?h)"
    by blast+
  from exceptions_propagate [of checked_args "[]" "''no update''" "Updater failing" ?h] b
  have 3: "setState checked_args (Updater failing) ?h = (Some ''no update'', ?h)"
    by blast
  from exceptions_propagate [of checked_args "[]" "''too long''" "Value ''long''" ?h "''long''"] c d
  have 4: "setState checked_args (Value ''long'') ?h = (Some ''too long'', ?h)"
    by blast
  from a b d 1 2 3 4 show ?thesis by simp
qed

end
